theory Spec2Isabelle
  imports Complex_Main
begin

section \<open>Cone formatting utilities of cvxpy (constraints/utilities.py)\<close>

text \<open>
  The module holds three functions: \<open>format_axis\<close>, \<open>format_elemwise\<close> and
  \<open>get_spacing_matrix\<close>. They build linear-operator trees (LinOps) out of sparse 0/1
  selector matrices and the caller's expressions. A Python exception is a value of
  \<open>error\<close> on the left of a sum; Python integers are \<open>int\<close>; the dimensions of a
  shape are natural numbers; matrix entries are idealised as real numbers.
\<close>

subsection \<open>Failures\<close>

text \<open>
  \<open>ShapeMismatch\<close> and \<open>InvalidSpacing\<close> are the two kinds of the specification's error
  taxonomy. \<open>IndexError\<close> is Python's failure of \<open>xs[0]\<close> on an empty list or tuple,
  \<open>ValueError\<close> the sparse factory's refusal of an index outside the matrix.
\<close>

datatype error = ShapeMismatch | InvalidSpacing | IndexError | ValueError

definition bind_result :: "error + 'a \<Rightarrow> ('a \<Rightarrow> error + 'b) \<Rightarrow> error + 'b" where
  "bind_result r f = (case r of Inl e \<Rightarrow> Inl e | Inr x \<Rightarrow> f x)"

subsection \<open>Sparse matrices in triplet form\<close>

text \<open>
  A sparse matrix is the list of its (row, column, value) triplets and its shape
  (rows, columns), as \<open>sp.coo_matrix((val_arr, (row_arr, col_arr)), shape)\<close> receives them.
\<close>

record sparse =
  entries :: "(int \<times> int \<times> real) list"
  dims :: "nat \<times> nat"

text \<open>
  Modelled from the spec: the sparse factory \<open>sp.coo_matrix(...).tocsc()\<close> belongs to
  scipy, a library outside the sources. The specification describes what it receives:
  row indices, column indices, values and a shape. That the three arrays must have one
  length and that an index outside the shape is refused (a \<open>ValueError\<close>) is the
  library's documented behaviour.
\<close>

definition coo_matrix :: "real list \<Rightarrow> int list \<Rightarrow> int list \<Rightarrow> nat \<times> nat \<Rightarrow> error + sparse" where
  "coo_matrix val_arr row_arr col_arr shp =
     (if length row_arr = length val_arr \<and> length col_arr = length val_arr
         \<and> list_all (\<lambda>r. 0 \<le> r \<and> r < int (fst shp)) row_arr
         \<and> list_all (\<lambda>c. 0 \<le> c \<and> c < int (snd shp)) col_arr
      then Inr \<lparr>entries = zip row_arr (zip col_arr val_arr), dims = shp\<rparr>
      else Inl ValueError)"

text \<open>
  Modelled from the spec: the value of a sparse matrix at a position, which the sources
  do not define. It is the sum of the values of the triplets stored for that position
  (standard sparse assembly: duplicates are summed), and zero where none is stored.
\<close>

definition entry :: "sparse \<Rightarrow> int \<Rightarrow> int \<Rightarrow> real" where
  "entry m i j = sum_list (map (\<lambda>(r, c, v). if r = i \<and> c = j then v else 0) (entries m))"

text \<open>The (row, column) pairs of the stored triplets, in the order of the arrays.\<close>

definition index_pairs :: "sparse \<Rightarrow> (int \<times> int) list" where
  "index_pairs m = map (\<lambda>(r, c, v). (r, c)) (entries m)"

subsection \<open>Linear operators\<close>

text \<open>
  Modelled from the spec: the LinOp type of \<open>cvxpy.lin_ops\<close> is not among the sources.
  A LinOp is a node of an expression tree: a kind, a shape and its arguments. The
  module only builds sparse constants, products, sums, reshapes and transposes;
  everything the caller passes in is opaque and stands here as a \<open>Variable\<close> leaf
  with an identifier and a shape. A shape is a tuple of dimensions: \<open>[]\<close> for a scalar
  (the source tests \<open>not t.shape\<close>), \<open>[m]\<close> for a 1-D vector, \<open>[rows, cols]\<close> for a
  matrix.
\<close>

datatype linop =
    Variable nat "nat list"
  | Sparse_Const sparse "nat list"
  | Mul linop linop "nat list"
  | Sum_Op "linop list" "nat list"
  | Reshape linop "nat list"
  | Transpose linop "nat list"

fun shape :: "linop \<Rightarrow> nat list" where
  "shape (Variable v s) = s"
| "shape (Sparse_Const m s) = s"
| "shape (Mul lh rh s) = s"
| "shape (Sum_Op es s) = s"
| "shape (Reshape e s) = s"
| "shape (Transpose e s) = s"

text \<open>
  Modelled from the spec: the constraint type is not among the sources. A constraint is
  the assertion that an expression is entrywise at least zero.
\<close>

datatype constraint = Geq linop

fun expr :: "constraint \<Rightarrow> linop" where
  "expr (Geq e) = e"

subsection \<open>The composition layer lin_utils\<close>

text \<open>
  The linear-operator utility module \<open>cvxpy.lin_ops.lin_utils\<close> (\<open>lu\<close>) is not among
  the sources. The specification gives its interface (\<open>transpose\<close>, \<open>reshape\<close>,
  \<open>mul_expr\<close>, \<open>sum_expr\<close>, \<open>create_const\<close>, \<open>create_geq\<close>) and says that this
  composition layer signals \<open>ShapeMismatch\<close> on shapes that are incompatible for
  stacking, reshaping or multiplication.
\<close>

text \<open>
  Modelled from the spec: \<open>lu.create_const(mat, shape, sparse=True)\<close> wraps a sparse
  matrix as a constant LinOp of the given shape.
\<close>

definition create_const :: "sparse \<Rightarrow> nat \<times> nat \<Rightarrow> linop" where
  "create_const mat shp = Sparse_Const mat [fst shp, snd shp]"

text \<open>
  Modelled from the spec: \<open>lu.transpose(operator)\<close> is a transpose node; its shape is the
  operand's with the dimensions in reverse order.
\<close>

definition transpose_op :: "linop \<Rightarrow> linop" where
  "transpose_op operator = Transpose operator (rev (shape operator))"

text \<open>
  Modelled from the spec: \<open>lu.reshape(operator, shape)\<close> is a reshape node; shapes with
  different numbers of entries are incompatible for reshaping.
\<close>

definition reshape :: "linop \<Rightarrow> nat list \<Rightarrow> error + linop" where
  "reshape operator shp =
     (if prod_list (shape operator) = prod_list shp then Inr (Reshape operator shp)
      else Inl ShapeMismatch)"

text \<open>
  Modelled from the spec: \<open>lu.mul_expr(lh_op, rh_op)\<close> is the product of two matrices,
  the constant on the left; the shapes are compatible when both are (rows, columns) and
  the columns of the left equal the rows of the right.
\<close>

definition mul_expr :: "linop \<Rightarrow> linop \<Rightarrow> error + linop" where
  "mul_expr lh_op rh_op =
     (case (shape lh_op, shape rh_op) of
        ([m, k], [k', n]) \<Rightarrow>
          if k = k' then Inr (Mul lh_op rh_op [m, n]) else Inl ShapeMismatch
      | _ \<Rightarrow> Inl ShapeMismatch)"

text \<open>
  Modelled from the spec: \<open>lu.sum_expr(operators)\<close> is the sum of a sequence of
  operators, which must all have one shape. The module never passes an empty sequence.
\<close>

definition sum_expr :: "linop list \<Rightarrow> error + linop" where
  "sum_expr operators =
     (case operators of
        [] \<Rightarrow> Inl ShapeMismatch
      | e # es \<Rightarrow>
          if list_all (\<lambda>x. shape x = shape e) es then Inr (Sum_Op operators (shape e))
          else Inl ShapeMismatch)"

text \<open>
  Modelled from the spec: \<open>lu.create_geq(lh_op)\<close> is the inequality \<open>lh_op \<ge> 0\<close>.
\<close>

definition create_geq :: "linop \<Rightarrow> constraint" where
  "create_geq lh_op = Geq lh_op"

subsection \<open>The value of a linear operator\<close>

text \<open>
  Modelled from the spec: what a LinOp evaluates to is decided by the solver interface,
  which is not among the sources; the meaning of the nodes is that of linear algebra.
  An environment gives every leaf its entries; a product is the matrix product, a sum
  the entrywise sum, a transpose swaps the indices, and a reshape keeps the
  column-major order of the entries. A scalar has its value at \<open>(0, 0)\<close>, a 1-D vector
  of length \<open>m\<close> at \<open>(0, 0) .. (m - 1, 0)\<close>.
\<close>

fun nrows :: "nat list \<Rightarrow> nat" where
  "nrows [] = 1"
| "nrows (r # s) = r"

fun ncols :: "nat list \<Rightarrow> nat" where
  "ncols (r # c # s) = c"
| "ncols s = 1"

fun eval_linop :: "(nat \<Rightarrow> nat \<Rightarrow> nat \<Rightarrow> real) \<Rightarrow> linop \<Rightarrow> nat \<Rightarrow> nat \<Rightarrow> real" where
  "eval_linop env (Variable v s) i j = env v i j"
| "eval_linop env (Sparse_Const m s) i j = entry m (int i) (int j)"
| "eval_linop env (Mul lh rh s) i j =
     sum_list (map (\<lambda>k. eval_linop env lh i k * eval_linop env rh k j) [0..<ncols (shape lh)])"
| "eval_linop env (Sum_Op es s) i j = sum_list (map (\<lambda>e. eval_linop env e i j) es)"
| "eval_linop env (Reshape e s) i j =
     (let p = i + j * nrows s; m = nrows (shape e) in eval_linop env e (p mod m) (p div m))"
| "eval_linop env (Transpose e s) i j = eval_linop env e j i"

subsection \<open>get_spacing_matrix\<close>

text \<open>
  The loop over \<open>range(shape[1])\<close> appends one triplet per column \<open>var_row\<close>: the value
  \<open>1.0\<close> at row \<open>spacing * var_row + offset\<close>. The function makes no check of its
  own; the arrays go to the sparse factory and the matrix to \<open>lu.create_const\<close>.
\<close>

definition get_spacing_matrix :: "nat \<times> nat \<Rightarrow> int \<Rightarrow> int \<Rightarrow> error + linop" where
  "get_spacing_matrix shp spacing offset =
     (let var_rows = [0..<snd shp];
          val_arr = map (\<lambda>var_row. 1) var_rows;
          row_arr = map (\<lambda>var_row. spacing * int var_row + offset) var_rows;
          col_arr = map (\<lambda>var_row. int var_row) var_rows
      in bind_result (coo_matrix val_arr row_arr col_arr shp)
           (\<lambda>mat. Inr (create_const mat shp)))"

subsection \<open>format_elemwise\<close>

text \<open>
  The loop \<open>for i, var in enumerate(vars_)\<close>: one spacing matrix and one product per
  expression, appended to \<open>terms\<close>; the first failure ends the call.
\<close>

fun format_elemwise_terms ::
  "nat \<times> nat \<Rightarrow> int \<Rightarrow> nat \<Rightarrow> linop list \<Rightarrow> linop list \<Rightarrow> error + linop list" where
  "format_elemwise_terms mat_shape spacing i [] terms = Inr terms"
| "format_elemwise_terms mat_shape spacing i (var # rest) terms =
     bind_result (get_spacing_matrix mat_shape spacing (int i)) (\<lambda>mat.
     bind_result (mul_expr mat var) (\<lambda>prod.
     format_elemwise_terms mat_shape spacing (Suc i) rest (terms @ [prod])))"

text \<open>
  \<open>vars_[0]\<close> raises on an empty list, and \<open>vars_[0].shape[0]\<close> on an expression of
  shape \<open>()\<close>; both come before the loop.
\<close>

definition format_elemwise :: "linop list \<Rightarrow> error + constraint list" where
  "format_elemwise vars =
     (let spacing = length vars in
      case vars of
        [] \<Rightarrow> Inl IndexError
      | v0 # vs \<Rightarrow>
          (case shape v0 of
             [] \<Rightarrow> Inl IndexError
           | r0 # s \<Rightarrow>
               let mat_shape = (spacing * r0, r0) in
               bind_result (format_elemwise_terms mat_shape (int spacing) 0 vars []) (\<lambda>terms.
               bind_result (sum_expr terms) (\<lambda>total.
               Inr [create_geq total]))))"

subsection \<open>format_axis\<close>

text \<open>
  The two selector matrices that \<open>format_axis\<close> builds inline: \<open>t_mat\<close> of shape
  \<open>(cone_size, 1)\<close> with one entry at \<open>(0, 0)\<close>, and \<open>X_mat\<close> of shape
  \<open>(cone_size, X.shape[0])\<close> with the entries \<open>(1 + j, j)\<close> for \<open>j\<close> in
  \<open>range(cone_size - 1)\<close>.
\<close>

definition format_axis_t_mat :: "nat \<Rightarrow> error + linop" where
  "format_axis_t_mat cone_size =
     (let mat_shape = (cone_size, 1) in
      bind_result (coo_matrix [1] [0] [0] mat_shape) (\<lambda>t_mat.
      Inr (create_const t_mat mat_shape)))"

definition format_axis_X_mat :: "nat \<Rightarrow> nat \<Rightarrow> error + linop" where
  "format_axis_X_mat cone_size X_rows =
     (let mat_shape = (cone_size, X_rows);
          val_arr = replicate (cone_size - 1) 1;
          row_arr = map int [1..<cone_size];
          col_arr = map int [0..<cone_size - 1]
      in bind_result (coo_matrix val_arr row_arr col_arr mat_shape) (\<lambda>X_mat.
         Inr (create_const X_mat mat_shape)))"

text \<open>
  \<open>X\<close> is transposed exactly when \<open>axis == 1\<close>; \<open>X.shape[0]\<close> raises on a shape
  \<open>()\<close>; the leader is reshaped to \<open>(1, 1)\<close> when its shape is empty and to
  \<open>(1, t.shape[0])\<close> otherwise.
\<close>

definition format_axis :: "linop \<Rightarrow> linop \<Rightarrow> int \<Rightarrow> error + constraint list" where
  "format_axis t X0 axis =
     (let X = (if axis = 1 then transpose_op X0 else X0) in
      case shape X of
        [] \<Rightarrow> Inl IndexError
      | X_rows # s \<Rightarrow>
          let cone_size = 1 + X_rows in
          bind_result (format_axis_t_mat cone_size) (\<lambda>t_mat.
          bind_result (case shape t of [] \<Rightarrow> reshape t [1, 1] | t_len # s' \<Rightarrow> reshape t [1, t_len]) (\<lambda>t_vec.
          bind_result (mul_expr t_mat t_vec) (\<lambda>t_term.
          bind_result (format_axis_X_mat cone_size X_rows) (\<lambda>X_mat.
          bind_result (mul_expr X_mat X) (\<lambda>X_term.
          bind_result (sum_expr [t_term, X_term]) (\<lambda>total.
          Inr [create_geq total])))))))"

subsection \<open>Auxiliary: the spacing matrix of format_elemwise\<close>

text \<open>
  Not a function of the module: a name for the constant that \<open>get_spacing_matrix\<close>
  returns for the shape \<open>(N*R, R)\<close>, the spacing \<open>N\<close> and an offset \<open>k < N\<close>
  (lemma \<open>get_spacing_matrix_elemwise\<close>), used to state the terms of the loop.
\<close>

definition spacing_const :: "nat \<Rightarrow> nat \<Rightarrow> nat \<Rightarrow> linop" where
  "spacing_const N R k =
     Sparse_Const \<lparr>entries = map (\<lambda>c. (int N * int c + int k, int c, 1)) [0..<R],
                    dims = (N * R, R)\<rparr> [N * R, R]"

section \<open>Properties\<close>

subsection \<open>Helper lemmas: results, sums, triplets and shapes\<close>

lemma bind_result_Inr [simp]: "bind_result (Inr x) f = f x"
  by (simp add: bind_result_def)

lemma bind_result_Inl [simp]: "bind_result (Inl e) f = Inl e"
  by (simp add: bind_result_def)

lemma sum_list_delta:
  "sum_list (map (\<lambda>k. if k = c then f k else (0::real)) [0..<n]) = (if c < n then f c else 0)"
  by (induction n) auto

lemma sum_list_pick_enumerate:
  "sum_list (map (\<lambda>(k, v). if k = i then f v else (0::real)) (enumerate n vs)) =
     (if n \<le> i \<and> i < n + length vs then f (vs ! (i - n)) else 0)"
proof (induction vs arbitrary: n)
  case Nil
  then show ?case by simp
next
  case (Cons v vs)
  show ?case
  proof (cases "n = i")
    case True
    then show ?thesis by (simp add: Cons.IH)
  next
    case False
    then show ?thesis by (auto simp: Cons.IH Suc_diff_le nth_Cons')
  qed
qed

lemma zip3_map:
  "zip (map f xs) (zip (map g xs) (map h xs)) = map (\<lambda>x. (f x, g x, h x)) xs"
  by (induction xs) auto

lemma entry_spacing:
  "entry \<lparr>entries = map (\<lambda>c. (spacing * int c + offset, int c, 1)) [0..<k], dims = d\<rparr> i j
   = (if 0 \<le> j \<and> j < int k \<and> i = spacing * j + offset then 1 else 0)"
proof -
  define g :: real where "g = (if 0 \<le> j \<and> i = spacing * j + offset then 1 else 0)"
  have fn: "(if spacing * int c + offset = i \<and> int c = j then 1 else 0)
          = (if c = nat j then g else 0)" for c
    unfolding g_def by (cases "c = nat j") auto
  have "entry \<lparr>entries = map (\<lambda>c. (spacing * int c + offset, int c, 1)) [0..<k], dims = d\<rparr> i j
      = sum_list (map (\<lambda>c. if spacing * int c + offset = i \<and> int c = j then 1 else 0) [0..<k])"
    by (simp add: entry_def comp_def)
  also have "\<dots> = sum_list (map (\<lambda>c. if c = nat j then g else 0) [0..<k])"
    by (simp only: fn)
  also have "\<dots> = (if nat j < k then g else 0)"
    by (rule sum_list_delta)
  also have "\<dots> = (if 0 \<le> j \<and> j < int k \<and> i = spacing * j + offset then 1 else 0)"
    unfolding g_def by auto
  finally show ?thesis .
qed

lemma distinct_spacing_pairs:
  "distinct (index_pairs \<lparr>entries = map (\<lambda>c. (spacing * int c + offset, int c, v)) [0..<n], dims = d\<rparr>)"
  by (simp add: index_pairs_def comp_def distinct_map inj_on_def)

lemma shape_2d:
  assumes "length (shape v) = 2"
  shows "shape v = [nrows (shape v), ncols (shape v)]"
  using assms by (cases "shape v"; cases "tl (shape v)") auto

lemma mul_expr_2d:
  assumes "shape lh = [m, k]" and "length (shape rh) = 2"
  shows "mul_expr lh rh =
           (if nrows (shape rh) = k then Inr (Mul lh rh [m, ncols (shape rh)]) else Inl ShapeMismatch)"
proof -
  obtain a b where "shape rh = [a, b]"
    using assms(2) by (cases "shape rh"; cases "tl (shape rh)") auto
  then show ?thesis
    using assms(1) by (auto simp: mul_expr_def)
qed

lemma sum_expr_Cons:
  "sum_expr (e # es) =
     (if \<forall>x\<in>set es. shape x = shape e then Inr (Sum_Op (e # es) (shape e)) else Inl ShapeMismatch)"
  by (simp add: sum_expr_def list_all_iff)

subsection \<open>What the three selector builders return\<close>

lemma get_spacing_matrix_cases:
  "get_spacing_matrix (rows, cols) spacing offset =
     (if list_all (\<lambda>c. 0 \<le> spacing * int c + offset \<and> spacing * int c + offset < int rows) [0..<cols]
      then Inr (Sparse_Const
                 \<lparr>entries = map (\<lambda>c. (spacing * int c + offset, int c, 1)) [0..<cols],
                    dims = (rows, cols)\<rparr> [rows, cols])
      else Inl ValueError)"
proof -
  have cols_ok: "list_all (\<lambda>c. 0 \<le> c \<and> c < int cols) (map int [0..<cols])"
    by (simp add: list_all_iff)
  show ?thesis
    using cols_ok
    by (simp add: get_spacing_matrix_def coo_matrix_def create_const_def zip3_map Let_def
          list_all_length)
qed

lemma spacing_row_bounds:
  assumes "0 \<le> offset" "offset < spacing" "c < k"
  shows "0 \<le> spacing * int c + offset \<and> spacing * int c + offset < int (nat (spacing * int k))"
proof -
  have sp: "0 < spacing" using assms by linarith
  have "int c + 1 \<le> int k" using assms by linarith
  then have "spacing * (int c + 1) \<le> spacing * int k"
    using sp by (intro mult_left_mono) auto
  then have "spacing * int c + spacing \<le> spacing * int k"
    by (simp add: algebra_simps)
  moreover have "0 \<le> spacing * int c" using sp by simp
  ultimately show ?thesis using assms by linarith
qed

lemma get_spacing_matrix_ok:
  assumes "\<forall>c<k. 0 \<le> spacing * int c + offset \<and> spacing * int c + offset < int rows"
  shows "get_spacing_matrix (rows, k) spacing offset =
     Inr (Sparse_Const \<lparr>entries = map (\<lambda>c. (spacing * int c + offset, int c, 1)) [0..<k],
                          dims = (rows, k)\<rparr> [rows, k])"
  using assms
  by (simp add: get_spacing_matrix_def coo_matrix_def create_const_def zip3_map list_all_iff)

lemma get_spacing_matrix_elemwise:
  assumes "k < N"
  shows "get_spacing_matrix (N * R, R) (int N) (int k) = Inr (spacing_const N R k)"
proof -
  have "N * c + k < N * R" if "c < R" for c
  proof -
    have "N * c + k < N * Suc c" using assms by simp
    also have "\<dots> \<le> N * R" using that by (intro mult_le_mono2) simp
    finally show ?thesis .
  qed
  then have "int N * int c + int k < int (N * R)" if "c < R" for c
    using that by (metis of_nat_add of_nat_less_iff of_nat_mult)
  then have "list_all (\<lambda>c. 0 \<le> int N * int c + int k \<and> int N * int c + int k < int (N * R)) [0..<R]"
    by (simp add: list_all_iff)
  then show ?thesis
    by (simp only: get_spacing_matrix_cases spacing_const_def if_True)
qed

lemma shape_spacing_const [simp]: "shape (spacing_const N R k) = [N * R, R]"
  by (simp add: spacing_const_def)

lemma format_axis_t_mat_eq:
  "format_axis_t_mat (Suc n) = Inr (Sparse_Const \<lparr>entries = [(0, 0, 1)], dims = (Suc n, 1)\<rparr> [Suc n, 1])"
  by (simp add: format_axis_t_mat_def coo_matrix_def create_const_def)

lemma format_axis_X_mat_eq:
  "format_axis_X_mat (Suc n) n =
     Inr (Sparse_Const \<lparr>entries = map (\<lambda>c. (1 * int c + 1, int c, 1)) [0..<n],
                         dims = (Suc n, n)\<rparr> [Suc n, n])"
proof -
  have r: "map int [1..<Suc n] = map (\<lambda>c. 1 * int c + 1) [0..<n]"
    by (induction n) auto
  have v: "replicate n (1::real) = map (\<lambda>c. 1) [0..<n]"
    by (simp add: map_replicate_const)
  have coo: "coo_matrix (map (\<lambda>c. 1) [0..<n]) (map (\<lambda>c. 1 * int c + 1) [0..<n])
               (map int [0..<n]) (Suc n, n)
             = Inr \<lparr>entries = map (\<lambda>c. (1 * int c + 1, int c, 1)) [0..<n], dims = (Suc n, n)\<rparr>"
    by (simp add: coo_matrix_def zip3_map list_all_iff)
  have "format_axis_X_mat (Suc n) n =
      bind_result (coo_matrix (replicate n 1) (map int [1..<Suc n]) (map int [0..<n]) (Suc n, n))
        (\<lambda>X_mat. Inr (create_const X_mat (Suc n, n)))"
    by (simp add: format_axis_X_mat_def Let_def)
  also have "\<dots> = Inr (create_const
       \<lparr>entries = map (\<lambda>c. (1 * int c + 1, int c, 1)) [0..<n], dims = (Suc n, n)\<rparr> (Suc n, n))"
    by (simp only: r v coo bind_result_Inr)
  finally show ?thesis by (simp add: create_const_def)
qed

lemma t_mat_props:
  assumes "format_axis_t_mat (Suc R) = Inr T"
  shows "shape T = [Suc R, 1]"
    and "eval_linop env T i l = (if i = 0 \<and> l = 0 then 1 else 0)"
  using assms by (auto simp: format_axis_t_mat_eq entry_def)

lemma X_mat_props:
  assumes "format_axis_X_mat (Suc R) R = Inr XM"
  shows "shape XM = [Suc R, R]"
    and "eval_linop env XM i l = (if l < R \<and> i = Suc l then 1 else 0)"
proof -
  have XM: "XM = Sparse_Const \<lparr>entries = map (\<lambda>c. (1 * int c + 1, int c, 1)) [0..<R],
                         dims = (Suc R, R)\<rparr> [Suc R, R]"
    using assms by (simp add: format_axis_X_mat_eq)
  show "shape XM = [Suc R, R]"
    by (simp add: XM)
  have "eval_linop env XM i l = (if 0 \<le> int l \<and> int l < int R \<and> int i = 1 * int l + 1 then 1 else 0)"
    unfolding XM eval_linop.simps by (rule entry_spacing)
  also have "\<dots> = (if l < R \<and> i = Suc l then 1 else 0)"
    by auto
  finally show "eval_linop env XM i l = (if l < R \<and> i = Suc l then 1 else 0)" .
qed

subsection \<open>format_elemwise: the interleaved layout\<close>

lemma format_elemwise_terms_2d:
  assumes "\<forall>v\<in>set vs. length (shape v) = 2" and "i + length vs \<le> N"
  shows "format_elemwise_terms (N * R, R) (int N) i vs terms =
           (if \<forall>v\<in>set vs. nrows (shape v) = R
            then Inr (terms @ map (\<lambda>(k, v). Mul (spacing_const N R k) v [N * R, ncols (shape v)])
                                  (enumerate i vs))
            else Inl ShapeMismatch)"
  using assms
proof (induction vs arbitrary: i terms)
  case Nil
  then show ?case by simp
next
  case (Cons v vs)
  have i: "i < N" using Cons.prems(2) by simp
  have v: "length (shape v) = 2" using Cons.prems(1) by simp
  have rest: "\<forall>v\<in>set vs. length (shape v) = 2" "Suc i + length vs \<le> N"
    using Cons.prems by simp_all
  note IH = Cons.IH [OF rest]
  show ?case
  proof (cases "nrows (shape v) = R")
    case True
    then show ?thesis
      by (simp add: get_spacing_matrix_elemwise [OF i] mul_expr_2d [OF _ v] IH)
  next
    case False
    then show ?thesis
      by (simp add: get_spacing_matrix_elemwise [OF i] mul_expr_2d [OF _ v])
  qed
qed

lemma format_elemwise_unfold:
  assumes "vars \<noteq> []" and "shape (hd vars) = R # s"
  shows "format_elemwise vars =
      bind_result (format_elemwise_terms (length vars * R, R) (int (length vars)) 0 vars [])
        (\<lambda>terms. bind_result (sum_expr terms) (\<lambda>total. Inr [create_geq total]))"
  using assms
  by (cases vars) (simp_all add: format_elemwise_def Let_def del: format_elemwise_terms.simps)

lemma interleave_index:
  assumes "i < N" and "k < N"
  shows "(r * N + i = N * l + k) = (l = r \<and> k = (i::nat))"
proof
  assume eq: "r * N + i = N * l + k"
  have "(r * N + i) mod N = i" "(r * N + i) div N = r"
    using assms by simp_all
  moreover have "(N * l + k) mod N = k" "(N * l + k) div N = l"
    using assms by simp_all
  ultimately show "l = r \<and> k = i" using eq by metis
next
  assume "l = r \<and> k = i"
  then show "r * N + i = N * l + k" by (simp add: mult.commute)
qed

lemma eval_spacing_product:
  assumes "i < N" and "k < N" and "r < R"
  shows "eval_linop env (Mul (spacing_const N R k) v s) (r * N + i) j =
           (if k = i then eval_linop env v r j else 0)"
proof -
  have e: "eval_linop env (spacing_const N R k) (r * N + i) l * eval_linop env v l j =
             (if l = r then (if k = i then eval_linop env v l j else 0) else 0)" for l
  proof -
    have "(int (r * N + i) = int N * int l + int k) = (r * N + i = N * l + k)"
      by (metis of_nat_add of_nat_eq_iff of_nat_mult)
    then have "eval_linop env (spacing_const N R k) (r * N + i) l =
          (if l < R \<and> l = r \<and> k = i then 1 else 0)"
      using interleave_index [OF assms(1,2), of r l]
      by (simp add: spacing_const_def entry_spacing)
    then show ?thesis
      using assms(3) by auto
  qed
  have "eval_linop env (Mul (spacing_const N R k) v s) (r * N + i) j
      = sum_list (map (\<lambda>l. eval_linop env (spacing_const N R k) (r * N + i) l
                               * eval_linop env v l j) [0..<R])"
    by simp
  also have "\<dots> = sum_list (map (\<lambda>l. if l = r then (if k = i then eval_linop env v l j else 0) else 0) [0..<R])"
    by (simp only: e)
  also have "\<dots> = (if r < R then (if k = i then eval_linop env v r j else 0) else 0)"
    by (rule sum_list_delta)
  finally show ?thesis using assms(3) by simp
qed

text \<open>
  Claim C1. For \<open>format_elemwise\<close> applied to \<open>N\<close> expressions, each of shape
  \<open>(R, 1)\<close>, the call returns one constraint; its expression has shape \<open>(N*R, 1)\<close>
  and, evaluated at any values of the expressions, its entry \<open>r*N + i\<close> is entry \<open>r\<close>
  of expression \<open>i\<close>: block \<open>r\<close> is \<open>(v0[r], ..., v_{N-1}[r])\<close>, in the order of the
  input sequence.
\<close>

theorem format_elemwise_layout:
  assumes "vars \<noteq> []" and "\<forall>v\<in>set vars. shape v = [R, 1]"
  shows "\<exists>c. format_elemwise vars = Inr [c]
           \<and> shape (expr c) = [length vars * R, 1]
           \<and> (\<forall>r i. r < R \<and> i < length vars \<longrightarrow>
                 eval_linop env (expr c) (r * length vars + i) 0 = eval_linop env (vars ! i) r 0)"
proof -
  define N where "N = length vars"
  define terms where
    "terms = map (\<lambda>(k, v). Mul (spacing_const N R k) v [N * R, ncols (shape v)]) (enumerate 0 vars)"
  obtain v0 vs where vars: "vars = v0 # vs"
    using assms(1) by (cases vars) auto
  have sh0: "shape v0 = [R, 1]"
    using assms(2) vars by simp
  have two: "\<forall>v\<in>set vars. length (shape v) = 2" and rows: "\<forall>v\<in>set vars. nrows (shape v) = R"
    and cols: "\<forall>v\<in>set vars. ncols (shape v) = 1"
    using assms(2) by simp_all
  have loop: "format_elemwise_terms (N * R, R) (int N) 0 vars [] = Inr terms"
    using format_elemwise_terms_2d [OF two, of 0 N R "[]"] rows
    by (simp add: N_def terms_def)
  have term_shapes: "\<forall>x\<in>set terms. shape x = [N * R, 1]"
  proof
    fix x assume "x \<in> set terms"
    then obtain p where p: "p \<in> set (enumerate 0 vars)"
        and x: "x = Mul (spacing_const N R (fst p)) (snd p) [N * R, ncols (shape (snd p))]"
      unfolding terms_def by (auto simp: case_prod_unfold)
    from p have "fst p < length vars" "vars ! fst p = snd p"
      by (simp_all add: in_set_enumerate_eq)
    then have "snd p \<in> set vars"
      by (metis nth_mem)
    then show "shape x = [N * R, 1]"
      using cols x by simp
  qed
  have "terms \<noteq> []"
    by (simp add: terms_def vars)
  then obtain e es where terms_Cons: "terms = e # es"
    by (cases terms) auto
  have total: "sum_expr terms = Inr (Sum_Op terms [N * R, 1])"
    using term_shapes unfolding terms_Cons by (simp add: sum_expr_Cons)
  have ret: "format_elemwise vars = Inr [Geq (Sum_Op terms [N * R, 1])]"
  proof -
    have "shape (hd vars) = [R, 1]"
      using sh0 by (simp add: vars)
    then have "format_elemwise vars =
      bind_result (format_elemwise_terms (N * R, R) (int N) 0 vars [])
        (\<lambda>terms. bind_result (sum_expr terms) (\<lambda>total. Inr [create_geq total]))"
      unfolding N_def by (rule format_elemwise_unfold [OF assms(1)])
    then show ?thesis
      by (simp only: loop total bind_result_Inr create_geq_def)
  qed
  have val: "eval_linop env (Sum_Op terms [N * R, 1]) (r * N + i) 0 = eval_linop env (vars ! i) r 0"
    if "r < R" and "i < N" for r i
  proof -
    have "eval_linop env (Sum_Op terms [N * R, 1]) (r * N + i) 0
        = sum_list (map (\<lambda>(k, v). eval_linop env
             (Mul (spacing_const N R k) v [N * R, ncols (shape v)]) (r * N + i) 0)
             (enumerate 0 vars))"
      by (simp add: terms_def comp_def case_prod_unfold)
    also have "\<dots> = sum_list (map (\<lambda>(k, v). if k = i then eval_linop env v r 0 else 0)
             (enumerate 0 vars))"
    proof (rule arg_cong [where f = sum_list], rule map_cong [OF refl])
      fix p assume "p \<in> set (enumerate 0 vars)"
      then have "fst p < N"
        by (simp add: in_set_enumerate_eq N_def)
      then show "(case p of (k, v) \<Rightarrow> eval_linop env
             (Mul (spacing_const N R k) v [N * R, ncols (shape v)]) (r * N + i) 0)
          = (case p of (k, v) \<Rightarrow> if k = i then eval_linop env v r 0 else 0)"
        using eval_spacing_product [OF that(2) _ that(1), of "fst p"]
        by (simp add: case_prod_unfold)
    qed
    also have "\<dots> = eval_linop env (vars ! i) r 0"
      using that(2) by (simp add: sum_list_pick_enumerate N_def)
    finally show ?thesis .
  qed
  show ?thesis
    using ret val by (intro exI [of _ "Geq (Sum_Op terms [N * R, 1])"]) (simp add: N_def)
qed

theorem format_elemwise_layout_witness:
  "[Variable 0 [2, 1], Variable 1 [2, 1]] \<noteq> []
   \<and> (\<exists>c. format_elemwise [Variable 0 [2, 1], Variable 1 [2, 1]] = Inr [c]
         \<and> shape (expr c) = [4, 1]
         \<and> map (\<lambda>p. eval_linop
                  (\<lambda>v i j. if v = 0 then (if i = 0 then 1 else 2) else (if i = 0 then 10 else 20))
                  (expr c) p 0) [0, 1, 2, 3]
             = [1, 10, 2, 20])"
proof -
  define env :: "nat \<Rightarrow> nat \<Rightarrow> nat \<Rightarrow> real" where
    "env = (\<lambda>v i j. if v = 0 then (if i = 0 then 1 else 2) else (if i = 0 then 10 else 20))"
  define vars where "vars = [Variable 0 [2, 1], Variable 1 [2, 1]]"
  have ne: "vars \<noteq> []" and sh: "\<forall>v\<in>set vars. shape v = [2, 1]"
    by (simp_all add: vars_def)
  have len: "length vars = 2"
    by (simp add: vars_def)
  obtain c where ret: "format_elemwise vars = Inr [c]"
      and shp: "shape (expr c) = [2 * 2, 1]"
      and val: "\<forall>r i. r < 2 \<and> i < 2 \<longrightarrow>
                 eval_linop env (expr c) (r * 2 + i) 0 = eval_linop env (vars ! i) r 0"
    using format_elemwise_layout [OF ne sh, of env, unfolded len] by blast
  have "eval_linop env (expr c) 0 0 = 1"
    using val [rule_format, of 0 0] by (simp add: vars_def env_def)
  moreover have "eval_linop env (expr c) 1 0 = 10"
    using val [rule_format, of 0 1] by (simp add: vars_def env_def)
  moreover have "eval_linop env (expr c) 2 0 = 2"
    using val [rule_format, of 1 0] by (simp add: vars_def env_def)
  moreover have "eval_linop env (expr c) 3 0 = 20"
    using val [rule_format, of 1 1] by (simp add: vars_def env_def)
  moreover have "shape (expr c) = [4, 1]"
    using shp by (simp add: vars_def)
  ultimately show ?thesis
    using ret unfolding vars_def env_def by auto
qed

subsection \<open>format_axis: one cone per column\<close>

lemma format_axis_steps:
  assumes "shape (if axis = 1 then transpose_op X else X) = R # s"
      and "format_axis_t_mat (Suc R) = Inr T"
      and "format_axis_X_mat (Suc R) R = Inr XM"
      and "(case shape t of [] \<Rightarrow> reshape t [1, 1] | t_len # s' \<Rightarrow> reshape t [1, t_len]) = Inr tv"
      and "shape tv = [1, n]"
  shows "format_axis t X axis =
           bind_result (mul_expr XM (if axis = 1 then transpose_op X else X)) (\<lambda>X_term.
           bind_result (sum_expr [Mul T tv [Suc R, n], X_term]) (\<lambda>total.
           Inr [create_geq total]))"
proof -
  have "mul_expr T tv = Inr (Mul T tv [Suc R, n])"
    using t_mat_props(1) [OF assms(2)] assms(5) by (simp add: mul_expr_def)
  then show ?thesis
    using assms(1-4) by (simp add: format_axis_def Let_def)
qed

lemma eval_t_term:
  assumes "format_axis_t_mat (Suc R) = Inr T"
  shows "eval_linop env (Mul T tv s) i j = (if i = 0 then eval_linop env tv 0 j else 0)"
  using t_mat_props [OF assms] by simp

lemma eval_X_term:
  assumes "format_axis_X_mat (Suc R) R = Inr XM"
  shows "eval_linop env (Mul XM X s) i j =
           (case i of 0 \<Rightarrow> 0 | Suc i' \<Rightarrow> if i' < R then eval_linop env X i' j else 0)"
proof (cases i)
  case 0
  have "eval_linop env (Mul XM X s) 0 j = sum_list (map (\<lambda>l. 0) [0..<R])"
    using X_mat_props [OF assms] by simp
  then show ?thesis using 0 by simp
next
  case (Suc i')
  have e: "eval_linop env XM (Suc i') l * eval_linop env X l j =
            (if l = i' then (if l < R then eval_linop env X l j else 0) else 0)" for l
    using X_mat_props(2) [OF assms] by auto
  have "eval_linop env (Mul XM X s) (Suc i') j
      = sum_list (map (\<lambda>l. eval_linop env XM (Suc i') l * eval_linop env X l j) [0..<R])"
    using X_mat_props(1) [OF assms] by simp
  also have "\<dots> = sum_list (map (\<lambda>l. if l = i' then (if l < R then eval_linop env X l j else 0) else 0) [0..<R])"
    by (simp only: e)
  also have "\<dots> = (if i' < R then (if i' < R then eval_linop env X i' j else 0) else 0)"
    by (rule sum_list_delta)
  finally show ?thesis using Suc by simp
qed

text \<open>
  Claim C2. For \<open>format_axis(t, X, axis=0)\<close> with a 1-D leader \<open>t\<close> of length \<open>m\<close> and
  \<open>X\<close> of shape \<open>(m_rows, m)\<close>, the call returns one constraint; its expression has
  shape \<open>(1 + m_rows, m)\<close> and its column \<open>j\<close> is \<open>t[j]\<close> stacked above \<open>X[:, j]\<close>.
\<close>

theorem format_axis_columns:
  assumes "shape t = [m]" and "shape X = [X_rows, m]"
  shows "\<exists>c. format_axis t X 0 = Inr [c]
           \<and> shape (expr c) = [1 + X_rows, m]
           \<and> (\<forall>j. j < m \<longrightarrow>
                 eval_linop env (expr c) 0 j = eval_linop env t j 0
                 \<and> (\<forall>i. i < X_rows \<longrightarrow> eval_linop env (expr c) (1 + i) j = eval_linop env X i j))"
proof -
  obtain T where T: "format_axis_t_mat (Suc X_rows) = Inr T"
    by (simp add: format_axis_t_mat_eq)
  obtain XM where XM: "format_axis_X_mat (Suc X_rows) X_rows = Inr XM"
    by (simp add: format_axis_X_mat_eq)
  define tv where "tv = Reshape t [1, m]"
  define total where "total = Sum_Op [Mul T tv [Suc X_rows, m], Mul XM X [Suc X_rows, m]] [Suc X_rows, m]"
  have r: "(case shape t of [] \<Rightarrow> reshape t [1, 1] | t_len # s' \<Rightarrow> reshape t [1, t_len]) = Inr tv"
    using assms(1) by (simp add: reshape_def tv_def)
  have x: "mul_expr XM X = Inr (Mul XM X [Suc X_rows, m])"
    using X_mat_props(1) [OF XM] assms(2) by (simp add: mul_expr_def)
  have "format_axis t X 0 =
           bind_result (mul_expr XM (if (0::int) = 1 then transpose_op X else X)) (\<lambda>X_term.
           bind_result (sum_expr [Mul T tv [Suc X_rows, m], X_term]) (\<lambda>total.
           Inr [create_geq total]))"
    by (rule format_axis_steps [OF _ T XM r]) (simp_all add: assms(2) tv_def)
  then have ret: "format_axis t X 0 = Inr [Geq total]"
    by (simp add: x sum_expr_Cons create_geq_def total_def)
  have leader: "eval_linop env total 0 j = eval_linop env t j 0" if "j < m" for j
  proof -
    have "eval_linop env total 0 j = eval_linop env tv 0 j"
      by (simp add: total_def eval_t_term [OF T] eval_X_term [OF XM] del: eval_linop.simps(3))
    also have "\<dots> = eval_linop env t j 0"
      using that by (simp add: tv_def assms(1))
    finally show ?thesis .
  qed
  have data: "eval_linop env total (1 + i) j = eval_linop env X i j" if "i < X_rows" for i j
    using that
    by (simp add: total_def eval_t_term [OF T] eval_X_term [OF XM] del: eval_linop.simps(3))
  show ?thesis
    using ret leader data by (intro exI [of _ "Geq total"]) (simp add: total_def)
qed

theorem format_axis_columns_witness:
  "\<exists>c. format_axis (Variable 0 [2]) (Variable 1 [2, 2]) 0 = Inr [c]
       \<and> shape (expr c) = [3, 2]
       \<and> map (\<lambda>i. eval_linop
                (\<lambda>v i j. if v = 0 then (if i = 0 then 5 else 6)
                          else if j = 0 then (if i = 0 then 1 else 2) else (if i = 0 then 3 else 4))
                (expr c) i 0) [0, 1, 2]
           = [5, 1, 2]
       \<and> map (\<lambda>i. eval_linop
                (\<lambda>v i j. if v = 0 then (if i = 0 then 5 else 6)
                          else if j = 0 then (if i = 0 then 1 else 2) else (if i = 0 then 3 else 4))
                (expr c) i 1) [0, 1, 2]
           = [6, 3, 4]"
proof -
  define env :: "nat \<Rightarrow> nat \<Rightarrow> nat \<Rightarrow> real" where
    "env = (\<lambda>v i j. if v = 0 then (if i = 0 then 5 else 6)
                     else if j = 0 then (if i = 0 then 1 else 2) else (if i = 0 then 3 else 4))"
  define t where "t = Variable 0 [2]"
  define X where "X = Variable 1 [2, 2]"
  have st: "shape t = [2]" and sX: "shape X = [2, 2]"
    by (simp_all add: t_def X_def)
  obtain c where ret: "format_axis t X 0 = Inr [c]"
      and shp: "shape (expr c) = [1 + 2, 2]"
      and val: "\<forall>j. j < 2 \<longrightarrow>
                 eval_linop env (expr c) 0 j = eval_linop env t j 0
                 \<and> (\<forall>i. i < 2 \<longrightarrow> eval_linop env (expr c) (1 + i) j = eval_linop env X i j)"
    using format_axis_columns [OF st sX, of env] by blast
  have c0: "eval_linop env (expr c) 0 0 = 5" "eval_linop env (expr c) (1 + 0) 0 = 1"
       "eval_linop env (expr c) (1 + 1) 0 = 2"
    using val [rule_format, of 0] by (simp_all add: t_def X_def env_def)
  have c1: "eval_linop env (expr c) 0 1 = 6" "eval_linop env (expr c) (1 + 0) 1 = 3"
       "eval_linop env (expr c) (1 + 1) 1 = 4"
    using val [rule_format, of 1] by (simp_all add: t_def X_def env_def)
  have "shape (expr c) = [3, 2]"
    using shp by simp
  then show ?thesis
    using ret c0 c1 unfolding t_def X_def env_def by (auto simp: numeral_2_eq_2)
qed

subsection \<open>get_spacing_matrix: a 0/1 selector\<close>

text \<open>
  Claim C3. For every \<open>k \<ge> 1\<close>, every \<open>spacing\<close> and every \<open>offset\<close> with
  \<open>0 \<le> offset < spacing\<close>, \<open>get_spacing_matrix((spacing*k, k), spacing, offset)\<close>
  returns a sparse constant of shape \<open>(spacing*k, k)\<close> that stores exactly one triplet
  per column \<open>c\<close> in \<open>0..k-1\<close>, at \<open>(spacing*c + offset, c)\<close>; its value is 1 there
  and 0 at every other position.
\<close>

theorem get_spacing_matrix_selector:
  assumes "1 \<le> k" and "0 \<le> offset" and "offset < spacing"
  shows "\<exists>m. get_spacing_matrix (nat (spacing * int k), k) spacing offset
               = Inr (Sparse_Const m [nat (spacing * int k), k])
           \<and> dims m = (nat (spacing * int k), k)
           \<and> index_pairs m = map (\<lambda>c. (spacing * int c + offset, int c)) [0..<k]
           \<and> (\<forall>i j. entry m i j =
                 (if 0 \<le> j \<and> j < int k \<and> i = spacing * j + offset then 1 else 0))"
proof -
  define m where "m = \<lparr>entries = map (\<lambda>c. (spacing * int c + offset, int c, 1::real)) [0..<k],
                         dims = (nat (spacing * int k), k)\<rparr>"
  have "\<forall>c<k. 0 \<le> spacing * int c + offset
           \<and> spacing * int c + offset < int (nat (spacing * int k))"
    using spacing_row_bounds [OF assms(2,3)] by blast
  then have ret: "get_spacing_matrix (nat (spacing * int k), k) spacing offset =
     Inr (Sparse_Const m [nat (spacing * int k), k])"
    unfolding m_def by (rule get_spacing_matrix_ok)
  have d: "dims m = (nat (spacing * int k), k)"
    by (simp add: m_def)
  have p: "index_pairs m = map (\<lambda>c. (spacing * int c + offset, int c)) [0..<k]"
    by (simp add: m_def index_pairs_def comp_def)
  have e: "\<forall>i j. entry m i j =
                 (if 0 \<le> j \<and> j < int k \<and> i = spacing * j + offset then 1 else 0)"
    unfolding m_def by (simp only: entry_spacing) simp
  from ret d p e show ?thesis by blast
qed

theorem get_spacing_matrix_selector_witness:
  "(1::nat) \<le> 2 \<and> (0::int) \<le> 1 \<and> (1::int) < 2
   \<and> (\<exists>m. get_spacing_matrix (4, 2) 2 1 = Inr (Sparse_Const m [4, 2])
         \<and> index_pairs m = [(1, 0), (3, 1)]
         \<and> entry m 1 0 = 1 \<and> entry m 3 1 = 1 \<and> entry m 0 0 = 0 \<and> entry m 1 1 = 0
         \<and> entry m 2 0 = 0 \<and> entry m 3 0 = 0)"
proof -
  obtain m where m: "get_spacing_matrix (4, 2) 2 1 = Inr (Sparse_Const m [4, 2])"
      "index_pairs m = map (\<lambda>c. (2 * int c + 1, int c)) [0..<2]"
      "\<forall>i j. entry m i j = (if 0 \<le> j \<and> j < 2 \<and> i = 2 * j + 1 then 1 else 0)"
    using get_spacing_matrix_selector [of 2 1 2] by auto
  have "index_pairs m = [(1, 0), (3, 1)]"
    using m(2) by (simp add: upt_conv_Cons)
  moreover have "entry m 1 0 = 1 \<and> entry m 3 1 = 1 \<and> entry m 0 0 = 0 \<and> entry m 1 1 = 0
         \<and> entry m 2 0 = 0 \<and> entry m 3 0 = 0"
    using m(3) by simp
  ultimately show ?thesis using m(1) by auto
qed

subsection \<open>format_axis: the axis argument and the leader\<close>

text \<open>
  Claim C4. For every leader \<open>t\<close> and matrix \<open>X\<close>, \<open>format_axis(t, X, axis=1)\<close> gives
  the result of \<open>format_axis(t, transpose(X), axis=0)\<close>.
\<close>

theorem format_axis_axis_1_transposes:
  "format_axis t X 1 = format_axis t (transpose_op X) 0"
  by (simp add: format_axis_def)

text \<open>
  Claim C5. A scalar leader (shape \<open>()\<close>) and a 1-D leader of length 1 (shape \<open>(1,)\<close>)
  are treated identically: either both calls fail with the same error, or both return
  the same constraint, in which the leader stands reshaped to \<open>(1, 1)\<close> under the
  leader-placement product.
\<close>

theorem format_axis_scalar_leader:
  assumes "shape t1 = []" and "shape t2 = [1]"
  shows "(\<exists>e. format_axis t1 X axis = Inl e \<and> format_axis t2 X axis = Inl e)
       \<or> (\<exists>A B s. format_axis t1 X axis = Inr [create_geq (Sum_Op [Mul A (Reshape t1 [1, 1]) s, B] s)]
                 \<and> format_axis t2 X axis = Inr [create_geq (Sum_Op [Mul A (Reshape t2 [1, 1]) s, B] s)])"
proof -
  define X' where "X' = (if axis = 1 then transpose_op X else X)"
  show ?thesis
  proof (cases "shape X'")
    case Nil
    then have "format_axis t1 X axis = Inl IndexError" "format_axis t2 X axis = Inl IndexError"
      by (simp_all add: format_axis_def X'_def)
    then show ?thesis by simp
  next
    case (Cons R s)
    obtain T where T: "format_axis_t_mat (Suc R) = Inr T"
      by (simp add: format_axis_t_mat_eq)
    obtain XM where XM: "format_axis_X_mat (Suc R) R = Inr XM"
      by (simp add: format_axis_X_mat_eq)
    have r1: "(case shape t1 of [] \<Rightarrow> reshape t1 [1, 1] | t_len # s' \<Rightarrow> reshape t1 [1, t_len])
                = Inr (Reshape t1 [1, 1])"
      using assms(1) by (simp add: reshape_def)
    have r2: "(case shape t2 of [] \<Rightarrow> reshape t2 [1, 1] | t_len # s' \<Rightarrow> reshape t2 [1, t_len])
                = Inr (Reshape t2 [1, 1])"
      using assms(2) by (simp add: reshape_def)
    have f: "format_axis t X axis =
           bind_result (mul_expr XM X') (\<lambda>X_term.
           bind_result (sum_expr [Mul T (Reshape t [1, 1]) [Suc R, 1], X_term]) (\<lambda>total.
           Inr [create_geq total]))"
      if "(case shape t of [] \<Rightarrow> reshape t [1, 1] | t_len # s' \<Rightarrow> reshape t [1, t_len])
                = Inr (Reshape t [1, 1])" for t
      unfolding X'_def
      by (rule format_axis_steps [OF _ T XM that]) (simp_all add: Cons [unfolded X'_def])
    show ?thesis
    proof (cases "mul_expr XM X'")
      case (Inl e)
      then show ?thesis
        by (simp add: f [OF r1] f [OF r2])
    next
      case (Inr B)
      show ?thesis
      proof (cases "shape B = [Suc R, 1]")
        case True
        then have "format_axis t1 X axis
                     = Inr [create_geq (Sum_Op [Mul T (Reshape t1 [1, 1]) [Suc R, 1], B] [Suc R, 1])]"
          and "format_axis t2 X axis
                     = Inr [create_geq (Sum_Op [Mul T (Reshape t2 [1, 1]) [Suc R, 1], B] [Suc R, 1])]"
          by (simp_all add: f [OF r1] f [OF r2] Inr sum_expr_Cons)
        then show ?thesis by blast
      next
        case False
        then have "format_axis t1 X axis = Inl ShapeMismatch"
          and "format_axis t2 X axis = Inl ShapeMismatch"
          by (simp_all add: f [OF r1] f [OF r2] Inr sum_expr_Cons)
        then show ?thesis by simp
      qed
    qed
  qed
qed

theorem format_axis_scalar_leader_witness:
  "format_axis (Variable 0 []) (Variable 1 [2, 1]) 0
     = Inr [create_geq (Sum_Op
         [Mul (Sparse_Const \<lparr>entries = [(0, 0, 1)], dims = (3, 1)\<rparr> [3, 1])
              (Reshape (Variable 0 []) [1, 1]) [3, 1],
          Mul (Sparse_Const \<lparr>entries = [(1, 0, 1), (2, 1, 1)], dims = (3, 2)\<rparr> [3, 2])
              (Variable 1 [2, 1]) [3, 1]] [3, 1])]
   \<and> format_axis (Variable 0 [1]) (Variable 1 [2, 1]) 0
     = Inr [create_geq (Sum_Op
         [Mul (Sparse_Const \<lparr>entries = [(0, 0, 1)], dims = (3, 1)\<rparr> [3, 1])
              (Reshape (Variable 0 [1]) [1, 1]) [3, 1],
          Mul (Sparse_Const \<lparr>entries = [(1, 0, 1), (2, 1, 1)], dims = (3, 2)\<rparr> [3, 2])
              (Variable 1 [2, 1]) [3, 1]] [3, 1])]"
proof -
  have c1: "format_axis (Variable 0 []) (Variable 1 [2, 1]) 0
     = Inr [create_geq (Sum_Op
         [Mul (Sparse_Const \<lparr>entries = [(0, 0, 1)], dims = (3, 1)\<rparr> [3, 1])
              (Reshape (Variable 0 []) [1, 1]) [3, 1],
          Mul (Sparse_Const \<lparr>entries = [(1, 0, 1), (2, 1, 1)], dims = (3, 2)\<rparr> [3, 2])
              (Variable 1 [2, 1]) [3, 1]] [3, 1])]"
    by (simp add: format_axis_def format_axis_t_mat_def format_axis_X_mat_def coo_matrix_def
          create_const_def reshape_def mul_expr_def sum_expr_def upt_conv_Cons numeral_2_eq_2
          numeral_3_eq_3)
  show ?thesis
    using c1 format_axis_scalar_leader [of "Variable 0 []" "Variable 0 [1]" "Variable 1 [2, 1]" 0]
    by (auto simp: create_geq_def)
qed

subsection \<open>format_elemwise: mismatched shapes\<close>

lemma format_elemwise_mismatch_2d:
  assumes "\<forall>v\<in>set vars. length (shape v) = 2"
      and "\<exists>v\<in>set vars. shape v \<noteq> shape (hd vars)"
  shows "format_elemwise vars = Inl ShapeMismatch"
proof -
  define N where "N = length vars"
  obtain v0 vs where vars: "vars = v0 # vs"
    using assms(2) by (cases vars) auto
  define R where "R = nrows (shape v0)"
  define C where "C = ncols (shape v0)"
  have sh0: "shape v0 = [R, C]"
    using assms(1) shape_2d [of v0] by (simp add: vars R_def C_def)
  obtain w where w: "w \<in> set vs" "shape w \<noteq> [R, C]"
    using assms(2) sh0 by (auto simp: vars)
  have loop: "format_elemwise_terms (N * R, R) (int N) 0 vars [] =
           (if \<forall>v\<in>set vars. nrows (shape v) = R
            then Inr (map (\<lambda>(k, v). Mul (spacing_const N R k) v [N * R, ncols (shape v)])
                                  (enumerate 0 vars))
            else Inl ShapeMismatch)"
    using format_elemwise_terms_2d [OF assms(1), of 0 N R "[]"] by (simp add: N_def)
  have unfold: "format_elemwise vars =
      bind_result (format_elemwise_terms (N * R, R) (int N) 0 vars []) (\<lambda>terms.
      bind_result (sum_expr terms) (\<lambda>total. Inr [create_geq total]))"
  proof -
    have "vars \<noteq> []" "shape (hd vars) = [R, C]"
      using sh0 by (simp_all add: vars)
    then show ?thesis
      unfolding N_def by (rule format_elemwise_unfold)
  qed
  show ?thesis
  proof (cases "\<forall>v\<in>set vars. nrows (shape v) = R")
    case False
    show ?thesis
      by (simp only: unfold loop False if_False bind_result_Inl)
  next
    case True
    have "length (shape w) = 2" "nrows (shape w) = R"
      using w(1) assms(1) True by (simp_all add: vars)
    then have wc: "ncols (shape w) \<noteq> C"
      using w(2) shape_2d [of w] by auto
    obtain k where k: "(k, w) \<in> set (enumerate 1 vs)"
    proof -
      obtain n where "n < length vs" "vs ! n = w"
        using w(1) by (auto simp: in_set_conv_nth)
      then have "(1 + n, w) \<in> set (enumerate 1 vs)"
        by (simp add: in_set_enumerate_eq)
      then show ?thesis using that by blast
    qed
    have "Mul (spacing_const N R k) w [N * R, ncols (shape w)]
            \<in> (\<lambda>(k, v). Mul (spacing_const N R k) v [N * R, ncols (shape v)])
                   ` set (enumerate 1 vs)"
      using k by (rule rev_image_eqI) simp
    then have "Mul (spacing_const N R k) w [N * R, ncols (shape w)]
            \<in> set (map (\<lambda>(k, v). Mul (spacing_const N R k) v [N * R, ncols (shape v)])
                     (enumerate 1 vs))"
      by simp
    moreover have "shape (Mul (spacing_const N R k) w [N * R, ncols (shape w)]) \<noteq> [N * R, C]"
      using wc by simp
    ultimately have bad: "\<not> (\<forall>x\<in>set (map (\<lambda>(k, v). Mul (spacing_const N R k) v [N * R, ncols (shape v)])
                     (enumerate 1 vs)). shape x = [N * R, C])"
      by blast
    have "sum_expr (map (\<lambda>(k, v). Mul (spacing_const N R k) v [N * R, ncols (shape v)])
                                  (enumerate 0 vars)) = Inl ShapeMismatch"
      using bad sh0 by (simp add: vars sum_expr_Cons)
    then show ?thesis
      by (simp only: unfold loop if_P [OF True] bind_result_Inr bind_result_Inl)
  qed
qed

lemma mul_expr_not_2d:
  assumes "shape lh = [m, k]" and "length (shape rh) \<noteq> 2"
  shows "mul_expr lh rh = Inl ShapeMismatch"
  using assms by (auto simp: mul_expr_def split: list.splits)

lemma format_elemwise_terms_not_2d:
  assumes "\<exists>v\<in>set vs. length (shape v) \<noteq> 2" and "i + length vs \<le> N"
  shows "format_elemwise_terms (N * R, R) (int N) i vs terms = Inl ShapeMismatch"
  using assms
proof (induction vs arbitrary: i terms)
  case Nil
  then show ?case by simp
next
  case (Cons v vs)
  have i: "i < N" using Cons.prems(2) by simp
  have len: "Suc i + length vs \<le> N" using Cons.prems(2) by simp
  show ?case
  proof (cases "length (shape v) = 2")
    case False
    then show ?thesis
      by (simp add: get_spacing_matrix_elemwise [OF i] mul_expr_not_2d [OF _ False])
  next
    case True
    then have rest: "\<exists>v\<in>set vs. length (shape v) \<noteq> 2"
      using Cons.prems(1) by auto
    show ?thesis
      by (simp add: get_spacing_matrix_elemwise [OF i] mul_expr_2d [OF _ True]
            Cons.IH [OF rest len])
  qed
qed

text \<open>
  Claim C6, as stated, fails: for two expressions of shapes \<open>()\<close> and \<open>(2, 1)\<close> the
  shapes do not match, and the call fails at \<open>vars_[0].shape[0]\<close> with an index
  error, before the composition layer is reached; no \<open>ShapeMismatch\<close> is signalled.
\<close>

theorem format_elemwise_scalar_first:
  "shape (Variable 0 []) \<noteq> shape (Variable 1 [2, 1])
   \<and> format_elemwise [Variable 0 [], Variable 1 [2, 1]] = Inl IndexError
   \<and> format_elemwise [Variable 0 [], Variable 1 [2, 1]] \<noteq> Inl ShapeMismatch"
  by (simp add: format_elemwise_def)

text \<open>
  Claim C6, amended. \<open>format_elemwise\<close> on expressions whose shapes do not all match
  returns no constraint. When the first expression has at least one dimension the
  failure is \<open>ShapeMismatch\<close>, signalled by the composition layer (\<open>mul_expr\<close> when
  an operand is not a matrix or the row counts differ, \<open>sum_expr\<close> when the column
  counts differ). When the first expression has shape \<open>()\<close> the failure is the index
  error of \<open>vars_[0].shape[0]\<close>.
\<close>

theorem format_elemwise_mismatch_fails:
  "(vars \<noteq> [] \<and> shape (hd vars) = [] \<longrightarrow> format_elemwise vars = Inl IndexError)
   \<and> (shape (hd vars) \<noteq> [] \<and> (\<exists>v\<in>set vars. shape v \<noteq> shape (hd vars))
        \<longrightarrow> format_elemwise vars = Inl ShapeMismatch)"
proof (intro conjI impI)
  assume "vars \<noteq> [] \<and> shape (hd vars) = []"
  then show "format_elemwise vars = Inl IndexError"
    by (cases vars) (simp_all add: format_elemwise_def)
next
  assume a: "shape (hd vars) \<noteq> [] \<and> (\<exists>v\<in>set vars. shape v \<noteq> shape (hd vars))"
  show "format_elemwise vars = Inl ShapeMismatch"
  proof (cases "\<forall>v\<in>set vars. length (shape v) = 2")
    case True
    then show ?thesis
      using a by (intro format_elemwise_mismatch_2d) simp_all
  next
    case False
    have ne: "vars \<noteq> []"
      using a by auto
    obtain R s where sh: "shape (hd vars) = R # s"
      using a by (cases "shape (hd vars)") auto
    have bad: "\<exists>v\<in>set vars. length (shape v) \<noteq> 2"
      using False by simp
    have "format_elemwise_terms (length vars * R, R) (int (length vars)) 0 vars []
            = Inl ShapeMismatch"
      by (rule format_elemwise_terms_not_2d [OF bad]) simp
    then show ?thesis
      by (simp only: format_elemwise_unfold [OF ne sh] bind_result_Inl)
  qed
qed

theorem format_elemwise_mismatch_fails_witness:
  "format_elemwise [Variable 0 [2, 1], Variable 1 [3, 1]] = Inl ShapeMismatch
   \<and> format_elemwise [Variable 0 [2, 1], Variable 1 [2, 2]] = Inl ShapeMismatch
   \<and> format_elemwise [Variable 0 [], Variable 1 [2, 1]] = Inl IndexError"
  using format_elemwise_mismatch_fails [of "[Variable 0 [2, 1], Variable 1 [3, 1]]"]
        format_elemwise_mismatch_fails [of "[Variable 0 [2, 1], Variable 1 [2, 2]]"]
        format_elemwise_mismatch_fails [of "[Variable 0 [], Variable 1 [2, 1]]"]
  by simp

subsection \<open>get_spacing_matrix: no validation of spacing and offset\<close>

text \<open>
  Claim C7, as stated, fails: the call with shape \<open>(4, 2)\<close>, \<open>spacing = 1\<close> and
  \<open>offset = 2\<close> has \<open>offset \<ge> spacing\<close> and returns a matrix, the entries at
  \<open>(2, 0)\<close> and \<open>(3, 1)\<close>; no \<open>InvalidSpacing\<close> is signalled.
\<close>

theorem get_spacing_matrix_no_InvalidSpacing:
  "(1::int) \<le> 2
   \<and> get_spacing_matrix (4, 2) 1 2
       = Inr (Sparse_Const \<lparr>entries = [(2, 0, 1), (3, 1, 1)], dims = (4, 2)\<rparr> [4, 2])
   \<and> get_spacing_matrix (4, 2) 1 2 \<noteq> Inl InvalidSpacing"
  by (simp add: get_spacing_matrix_cases upt_conv_Cons)

text \<open>
  Claim C7, amended. \<open>get_spacing_matrix\<close> does not compare \<open>offset\<close> with \<open>spacing\<close>
  and never signals \<open>InvalidSpacing\<close>: it returns the sparse constant with the entries
  \<open>(spacing*c + offset, c)\<close>, \<open>c < cols\<close>, when all these rows lie inside the shape,
  and otherwise the sparse factory refuses the indices (\<open>ValueError\<close>). For a shape
  \<open>(spacing*k, k)\<close> with \<open>k \<ge> 1\<close> and \<open>0 \<le> spacing \<le> offset\<close> the last row is
  outside, so the call fails with that \<open>ValueError\<close>.
\<close>

theorem get_spacing_matrix_unvalidated:
  "get_spacing_matrix (rows, cols) spacing offset =
     (if list_all (\<lambda>c. 0 \<le> spacing * int c + offset \<and> spacing * int c + offset < int rows) [0..<cols]
      then Inr (Sparse_Const
                 \<lparr>entries = map (\<lambda>c. (spacing * int c + offset, int c, 1)) [0..<cols],
                    dims = (rows, cols)\<rparr> [rows, cols])
      else Inl ValueError)
   \<and> (1 \<le> k \<and> 0 \<le> spacing \<and> spacing \<le> offset
        \<longrightarrow> get_spacing_matrix (nat (spacing * int k), k) spacing offset = Inl ValueError)"
proof (intro conjI impI)
  show "get_spacing_matrix (rows, cols) spacing offset =
     (if list_all (\<lambda>c. 0 \<le> spacing * int c + offset \<and> spacing * int c + offset < int rows) [0..<cols]
      then Inr (Sparse_Const
                 \<lparr>entries = map (\<lambda>c. (spacing * int c + offset, int c, 1)) [0..<cols],
                    dims = (rows, cols)\<rparr> [rows, cols])
      else Inl ValueError)"
    by (rule get_spacing_matrix_cases)
next
  assume a: "1 \<le> k \<and> 0 \<le> spacing \<and> spacing \<le> offset"
  then have k: "k - 1 < k" by simp
  have "spacing * int k = spacing * int (k - 1) + spacing"
    using a by (simp add: algebra_simps of_nat_diff)
  then have "\<not> spacing * int (k - 1) + offset < int (nat (spacing * int k))"
    using a by simp
  then have "\<exists>c\<in>set [0..<k]. \<not> (0 \<le> spacing * int c + offset
                  \<and> spacing * int c + offset < int (nat (spacing * int k)))"
    using k by (intro bexI [of _ "k - 1"]) simp_all
  then have "\<not> list_all (\<lambda>c. 0 \<le> spacing * int c + offset
                  \<and> spacing * int c + offset < int (nat (spacing * int k))) [0..<k]"
    unfolding list_all_iff by blast
  then show "get_spacing_matrix (nat (spacing * int k), k) spacing offset = Inl ValueError"
    by (simp add: get_spacing_matrix_cases)
qed

theorem get_spacing_matrix_unvalidated_witness:
  "(1::nat) \<le> 2 \<and> (0::int) \<le> 2 \<and> (2::int) \<le> 3
   \<and> get_spacing_matrix (4, 2) 2 3 = Inl ValueError"
  using get_spacing_matrix_unvalidated [of 4 2 2 3 2, THEN conjunct2]
  by simp

subsection \<open>No duplicate positions in the triplet lists\<close>

text \<open>
  Claim C8. Every triplet list the module builds (in \<open>get_spacing_matrix\<close>, and for the
  selectors \<open>t_mat\<close> and \<open>X_mat\<close> of \<open>format_axis\<close>, whose \<open>cone_size\<close> is
  \<open>1 + X.shape[0]\<close>) holds pairwise distinct (row, column) pairs.
\<close>

theorem triplets_no_duplicates:
  "(\<forall>m s. get_spacing_matrix (rows, cols) spacing offset = Inr (Sparse_Const m s)
            \<longrightarrow> distinct (index_pairs m))
   \<and> (\<forall>m s. format_axis_t_mat (1 + X_rows) = Inr (Sparse_Const m s)
            \<longrightarrow> distinct (index_pairs m))
   \<and> (\<forall>m s. format_axis_X_mat (1 + X_rows) X_rows = Inr (Sparse_Const m s)
            \<longrightarrow> distinct (index_pairs m))"
proof (intro conjI allI impI)
  fix m s
  assume "get_spacing_matrix (rows, cols) spacing offset = Inr (Sparse_Const m s)"
  then have "m = \<lparr>entries = map (\<lambda>c. (spacing * int c + offset, int c, 1)) [0..<cols],
                    dims = (rows, cols)\<rparr>"
    by (simp add: get_spacing_matrix_cases split: if_splits)
  then show "distinct (index_pairs m)"
    by (simp only: distinct_spacing_pairs)
next
  fix m s
  assume "format_axis_t_mat (1 + X_rows) = Inr (Sparse_Const m s)"
  then have "m = \<lparr>entries = [(0, 0, 1)], dims = (Suc X_rows, 1)\<rparr>"
    by (simp add: format_axis_t_mat_eq)
  then show "distinct (index_pairs m)"
    by (simp add: index_pairs_def)
next
  fix m s
  assume "format_axis_X_mat (1 + X_rows) X_rows = Inr (Sparse_Const m s)"
  then have "m = \<lparr>entries = map (\<lambda>c. (1 * int c + 1, int c, 1)) [0..<X_rows],
                    dims = (Suc X_rows, X_rows)\<rparr>"
    by (simp add: format_axis_X_mat_eq)
  then show "distinct (index_pairs m)"
    by (simp only: distinct_spacing_pairs)
qed

theorem triplets_no_duplicates_witness:
  "get_spacing_matrix (6, 2) 3 1
     = Inr (Sparse_Const \<lparr>entries = [(1, 0, 1), (4, 1, 1)], dims = (6, 2)\<rparr> [6, 2])
   \<and> distinct (index_pairs \<lparr>entries = [(1, 0, 1), (4, 1, 1)], dims = (6, 2)\<rparr>)
   \<and> format_axis_t_mat 3
     = Inr (Sparse_Const \<lparr>entries = [(0, 0, 1)], dims = (3, 1)\<rparr> [3, 1])
   \<and> distinct (index_pairs \<lparr>entries = [(0, 0, 1)], dims = (3, 1)\<rparr>)
   \<and> format_axis_X_mat 3 2
     = Inr (Sparse_Const \<lparr>entries = [(1, 0, 1), (2, 1, 1)], dims = (3, 2)\<rparr> [3, 2])
   \<and> distinct (index_pairs \<lparr>entries = [(1, 0, 1), (2, 1, 1)], dims = (3, 2)\<rparr>)"
proof -
  have g: "get_spacing_matrix (6, 2) 3 1
     = Inr (Sparse_Const \<lparr>entries = [(1, 0, 1), (4, 1, 1)], dims = (6, 2)\<rparr> [6, 2])"
    by (simp add: get_spacing_matrix_cases upt_conv_Cons)
  have t: "format_axis_t_mat 3
     = Inr (Sparse_Const \<lparr>entries = [(0, 0, 1)], dims = (3, 1)\<rparr> [3, 1])"
    by (simp add: format_axis_t_mat_def coo_matrix_def create_const_def)
  have x: "format_axis_X_mat 3 2
     = Inr (Sparse_Const \<lparr>entries = [(1, 0, 1), (2, 1, 1)], dims = (3, 2)\<rparr> [3, 2])"
    by (simp add: format_axis_X_mat_def coo_matrix_def create_const_def upt_conv_Cons
          numeral_2_eq_2)
  have three: "(1::nat) + 2 = 3"
    by simp
  from triplets_no_duplicates [of 6 2 3 1 2, unfolded three] g t x show ?thesis
    by blast
qed

subsection \<open>format_elemwise on an empty sequence\<close>

text \<open>
  Claim C9. \<open>format_elemwise\<close> applied to an empty sequence fails with the index error
  of \<open>vars_[0]\<close>; it returns no constraint list for \<open>N = 0\<close>.
\<close>

theorem format_elemwise_empty:
  "format_elemwise [] = Inl IndexError"
  by (simp add: format_elemwise_def)

subsection \<open>format_axis: other axis values\<close>

text \<open>
  Claim C10. \<open>format_axis\<close> never rejects an axis value: for every axis value other than
  1, also outside \<open>{0, 1}\<close>, it behaves exactly as with \<open>axis = 0\<close>.
\<close>

theorem format_axis_ignores_other_axis:
  assumes "axis \<noteq> 1"
  shows "format_axis t X axis = format_axis t X 0"
  using assms by (simp add: format_axis_def)

theorem format_axis_ignores_other_axis_witness:
  "(2::int) \<noteq> 1 \<and> (-1::int) \<noteq> 1
   \<and> format_axis (Variable 0 [2]) (Variable 1 [3, 2]) 2 = format_axis (Variable 0 [2]) (Variable 1 [3, 2]) 0
   \<and> format_axis (Variable 0 [2]) (Variable 1 [3, 2]) (-1) = format_axis (Variable 0 [2]) (Variable 1 [3, 2]) 0"
  using format_axis_ignores_other_axis [of 2 "Variable 0 [2]" "Variable 1 [3, 2]"]
        format_axis_ignores_other_axis [of "-1" "Variable 0 [2]" "Variable 1 [3, 2]"]
  by simp

end
